theory Spec2Isabelle
  imports Main
begin

section \<open>The lexer of Lexer.cpp\<close>

text \<open>
  The development follows \<^verbatim>\<open>src/Lexer/src/Lexer.cpp\<close>: the token model (lines 9-27),
  the class \<^verbatim>\<open>Lexer\<close> with its three fields (lines 32-34), the keyword table
  (lines 40-56), the character predicates (lines 66-102), the two sub-scanners
  (lines 111-137), the constructor (lines 146-148) and \<^verbatim>\<open>tokenize\<close> (lines 158-203).
\<close>

subsection \<open>Tokens\<close>

text \<open>
  \<^verbatim>\<open>enum class TokenType\<close>, in the order of the source; the first enumerator,
  \<open>Keyword\<close>, has the value 0 and is what a value-initialised \<^verbatim>\<open>TokenType\<close> holds.
\<close>

datatype TokenType =
  Keyword | Identifier | Integer | Float | String | Operator | Delimiter | Unknown

text \<open>\<^verbatim>\<open>struct Token { TokenType type; string value; }\<close>; \<^verbatim>\<open>Token(t, v)\<close> builds the record with these two fields.\<close>

record Token =
  type :: TokenType
  "value" :: string

subsection \<open>Failures\<close>

text \<open>
  The source has no \<^verbatim>\<open>throw\<close> of its own. Two ways of not delivering a result are
  visible in it and are values of the model:
  \<^item> \<open>OutOfRange\<close>: \<^verbatim>\<open>string::substr(pos, n)\<close> throws \<^verbatim>\<open>std::out_of_range\<close> when
    \<open>pos\<close> exceeds the length of the string;
  \<^item> \<open>MissingReturn\<close>: control reaches the closing brace of \<^verbatim>\<open>tokenize\<close>, whose
    return type is \<^verbatim>\<open>vector<Token>\<close>, without executing a \<^verbatim>\<open>return\<close>; the
    behaviour of the program is then undefined and no token sequence is delivered.
\<close>

datatype error = OutOfRange | MissingReturn

subsection \<open>The state of a lexer\<close>

text \<open>
  The three private fields. \<open>position\<close> is a \<^verbatim>\<open>size_t\<close>; it is only ever incremented
  by one, starting from 0, and never beyond the length of \<open>input\<close> plus one, so it does
  not wrap around and is modelled as a natural number. The \<^verbatim>\<open>unordered_map\<close> is a
  partial map from spellings to token types.
\<close>

record Lexer =
  input :: string
  position :: nat
  "keywords" :: "string \<rightharpoonup> TokenType"

text \<open>
  \<^verbatim>\<open>keywords[k]\<close> read as a value (\<^verbatim>\<open>unordered_map::operator[]\<close>): the mapped value
  when the key is present; otherwise a value-initialised entry is inserted first and
  returned. The result is the value together with the map as it is left.
\<close>

definition map_index :: "(string \<rightharpoonup> TokenType) \<Rightarrow> string \<Rightarrow> TokenType \<times> (string \<rightharpoonup> TokenType)" where
  "map_index m k = (case m k of Some v \<Rightarrow> (v, m) | None \<Rightarrow> (Keyword, m(k \<mapsto> Keyword)))"

text \<open>\<^verbatim>\<open>initKeywords\<close> (lines 40-56): fourteen assignments \<^verbatim>\<open>keywords[k] = TokenType::Keyword\<close>.\<close>

definition initKeywords :: "Lexer \<Rightarrow> Lexer" where
  "initKeywords L = L\<lparr>keywords := (keywords L)
     (''int'' \<mapsto> Keyword, ''float'' \<mapsto> Keyword, ''string'' \<mapsto> Keyword,
      ''if'' \<mapsto> Keyword, ''else'' \<mapsto> Keyword, ''while'' \<mapsto> Keyword,
      ''for'' \<mapsto> Keyword, ''switch'' \<mapsto> Keyword, ''case'' \<mapsto> Keyword,
      ''default'' \<mapsto> Keyword, ''break'' \<mapsto> Keyword, ''continue'' \<mapsto> Keyword,
      ''return'' \<mapsto> Keyword, ''void'' \<mapsto> Keyword)\<rparr>"

text \<open>
  The constructor (lines 146-148): the input is copied, the cursor starts at 0, the map
  starts empty and is filled by \<open>initKeywords\<close>.
\<close>

definition new_Lexer :: "string \<Rightarrow> Lexer" where
  "new_Lexer inp = initKeywords \<lparr>input = inp, position = 0, keywords = Map.empty\<rparr>"

subsection \<open>Character predicates\<close>

text \<open>
  A \<^verbatim>\<open>char\<close> is promoted to \<^verbatim>\<open>int\<close> before it is compared. \<open>char_int\<close> is that
  value for a signed \<^verbatim>\<open>char\<close> (bytes from 128 on are negative); with an unsigned
  \<^verbatim>\<open>char\<close> every comparison below has the same truth value, since all the bounds are
  ASCII characters.
\<close>

definition char_int :: "char \<Rightarrow> int" where
  "char_int c = (if (of_char c :: int) < 128 then of_char c else of_char c - 256)"

text \<open>
  A character literal with two characters, as in \<^verbatim>\<open>c == '//'\<close> (line 181) and
  \<^verbatim>\<open>c == ':3'\<close> (line 193), is an \<^verbatim>\<open>int\<close>; its value is the one GCC, Clang and MSVC
  give it: the first character's code times 256 plus the second's.
\<close>

definition multichar :: "char \<Rightarrow> char \<Rightarrow> int" where
  "multichar a b = 256 * of_char a + of_char b"

definition isWhitespace :: "char \<Rightarrow> bool" where
  "isWhitespace c = (c = CHR '' '' \<or> c = CHR 0x09 \<or> c = CHR 0x0A \<or> c = CHR 0x0D)"

definition isAlpha :: "char \<Rightarrow> bool" where
  "isAlpha c =
     ((char_int (CHR ''a'') \<le> char_int c \<and> char_int c \<le> char_int (CHR ''z'')) \<or>
      (char_int (CHR ''A'') \<le> char_int c \<and> char_int c \<le> char_int (CHR ''Z'')) \<or>
      (char_int (CHR ''0'') \<le> char_int c \<and> char_int c \<le> char_int (CHR ''9'')))"

definition isDigit :: "char \<Rightarrow> bool" where
  "isDigit c = (char_int (CHR ''0'') \<le> char_int c \<and> char_int c \<le> char_int (CHR ''9''))"

definition isAlphaNumeric :: "char \<Rightarrow> bool" where
  "isAlphaNumeric c = (isAlpha c \<or> isDigit c)"

text \<open>The conditions of the operator branch (line 181) and of the delimiter branch (line 193).\<close>

definition isOperatorChar :: "char \<Rightarrow> bool" where
  "isOperatorChar c =
     (c = CHR ''+'' \<or> c = CHR ''-'' \<or> c = CHR ''*'' \<or> c = CHR ''/'' \<or>
      char_int c = multichar (CHR ''/'') (CHR ''/'') \<or> c = CHR ''%'')"

definition isDelimiterChar :: "char \<Rightarrow> bool" where
  "isDelimiterChar c =
     (c = CHR ''('' \<or> c = CHR '')'' \<or> c = CHR '':'' \<or>
      char_int c = multichar (CHR '':'') (CHR ''3'') \<or> c = CHR ''['' \<or> c = CHR '']'')"

subsection \<open>The sub-scanners\<close>

text \<open>
  \<^verbatim>\<open>s.substr(pos, n)\<close>: the at most \<open>n\<close> characters from \<open>pos\<close> on; it throws when
  \<open>pos\<close> is beyond the end of \<open>s\<close>.
\<close>

definition substr :: "string \<Rightarrow> nat \<Rightarrow> nat \<Rightarrow> error + string" where
  "substr s pos n = (if length s < pos then Inl OutOfRange else Inr (take n (drop pos s)))"

text \<open>
  The loop of \<^verbatim>\<open>getNextWord\<close> (lines 113-115) as a function of the input and the
  cursor: it returns the cursor at which the loop stops.
\<close>

function word_end :: "string \<Rightarrow> nat \<Rightarrow> nat" where
  "word_end inp pos =
     (if pos < length inp \<and> isAlphaNumeric (inp ! pos) then word_end inp (pos + 1) else pos)"
  by pat_completeness auto
termination
  by (relation "measure (\<lambda>(inp, pos). length inp - pos)") auto

declare word_end.simps [simp del]

definition getNextWord :: "Lexer \<Rightarrow> error + (string \<times> Lexer)" where
  "getNextWord L =
     (let start = position L;
          L' = L\<lparr>position := word_end (input L) (position L)\<rparr>
      in case substr (input L') start (position L' - start) of
           Inl e \<Rightarrow> Inl e
         | Inr word \<Rightarrow> Inr (word, L'))"

text \<open>
  The loop of \<^verbatim>\<open>getNextNumber\<close> (lines 130-135). The local \<^verbatim>\<open>isFloat\<close> is assigned
  in the loop and never read, so it is not part of the result.
\<close>

function number_end :: "string \<Rightarrow> nat \<Rightarrow> nat" where
  "number_end inp pos =
     (if pos < length inp \<and> (isDigit (inp ! pos) \<or> inp ! pos = CHR ''.'')
      then number_end inp (pos + 1) else pos)"
  by pat_completeness auto
termination
  by (relation "measure (\<lambda>(inp, pos). length inp - pos)") auto

declare number_end.simps [simp del]

definition getNextNumber :: "Lexer \<Rightarrow> error + (string \<times> Lexer)" where
  "getNextNumber L =
     (let start = position L;
          L' = L\<lparr>position := number_end (input L) (position L)\<rparr>
      in case substr (input L') start (position L' - start) of
           Inl e \<Rightarrow> Inl e
         | Inr number \<Rightarrow> Inr (number, L'))"

subsection \<open>tokenize\<close>

text \<open>
  The braces of lines 158-203 pair as follows. Line 158 opens the function and line 160
  the \<^verbatim>\<open>while\<close>. The brace that line 171 opens for
  \<^verbatim>\<open>if (number.find('.') != string::npos)\<close> is closed by \<^verbatim>\<open>} else {\<close> on line 175, so
  \<^verbatim>\<open>tokens.push_back(Token(type, number))\<close> on line 174 belongs to that \<^verbatim>\<open>if\<close> and
  \<^verbatim>\<open>position++\<close> on line 176 is its \<^verbatim>\<open>else\<close>. The brace on line 177 closes this
  \<^verbatim>\<open>else\<close> and the one on line 179 closes \<^verbatim>\<open>else if (isDigit(c))\<close>, so the chain
  goes on with the operator, delimiter and fallback branches (lines 181-200).
  \<^verbatim>\<open>return tokens;\<close> on line 201 follows the chain inside the body of the
  \<^verbatim>\<open>while\<close>, which the brace on line 202 closes; line 203 closes the function. The
  body of the loop therefore ends in a \<^verbatim>\<open>return\<close> on every path, and nothing stands
  between the end of the loop and the end of the function.
\<close>

text \<open>The word branch, lines 165-167.\<close>

definition scan_word :: "Token list \<times> Lexer \<Rightarrow> error + (Token list \<times> Lexer)" where
  "scan_word st =
     (case st of (tokens, L) \<Rightarrow>
        (case getNextWord L of
           Inl e \<Rightarrow> Inl e
         | Inr (word, L1) \<Rightarrow>
             (case (if keywords L1 word \<noteq> None then map_index (keywords L1) word
                    else (Identifier, keywords L1)) of
                (ty, m) \<Rightarrow> Inr (tokens @ [\<lparr>type = ty, value = word\<rparr>], L1\<lparr>keywords := m\<rparr>))))"

text \<open>The digit branch, lines 169-177.\<close>

definition scan_number :: "Token list \<times> Lexer \<Rightarrow> error + (Token list \<times> Lexer)" where
  "scan_number st =
     (case st of (tokens, L) \<Rightarrow>
        (case getNextNumber L of
           Inl e \<Rightarrow> Inl e
         | Inr (number, L1) \<Rightarrow>
             (let ty = Integer in
              if CHR ''.'' \<in> set number then
                (let ty = Float in Inr (tokens @ [\<lparr>type = ty, value = number\<rparr>], L1))
              else Inr (tokens, L1\<lparr>position := position L1 + 1\<rparr>))))"

text \<open>
  The statements of the loop body before its \<^verbatim>\<open>return\<close>, lines 161-200, on the pair of
  the token vector and the lexer. It is only run with \<open>position L < length (input L)\<close>.
\<close>

definition tokenize_body :: "Token list \<times> Lexer \<Rightarrow> error + (Token list \<times> Lexer)" where
  "tokenize_body st =
     (case st of (tokens, L) \<Rightarrow>
        (let c = input L ! position L in
         if isWhitespace c then Inr (tokens, L\<lparr>position := position L + 1\<rparr>)
         else if isAlpha c then scan_word (tokens, L)
         else if isDigit c then scan_number (tokens, L)
         else if isOperatorChar c then
           Inr (tokens @ [\<lparr>type = Operator, value = [c]\<rparr>], L\<lparr>position := position L + 1\<rparr>)
         else if isDelimiterChar c then
           Inr (tokens @ [\<lparr>type = Delimiter, value = [c]\<rparr>], L\<lparr>position := position L + 1\<rparr>)
         else Inr (tokens @ [\<lparr>type = Unknown, value = [c]\<rparr>], L\<lparr>position := position L + 1\<rparr>)))"

text \<open>
  \<^verbatim>\<open>tokenize\<close>, lines 158-203: the vector starts empty; when the loop condition holds
  the body runs and line 201 returns the vector; when it does not hold the loop is
  skipped and the function ends without a \<^verbatim>\<open>return\<close>. The result is the returned
  vector with the lexer as the call leaves it.
\<close>

definition tokenize :: "Lexer \<Rightarrow> error + (Token list \<times> Lexer)" where
  "tokenize L =
     (let tokens = [] in
      if position L < length (input L) then tokenize_body (tokens, L)
      else Inl MissingReturn)"

section \<open>Properties of the sub-scanners and of one call\<close>

subsection \<open>Where the sub-scanners stop\<close>

text \<open>
  Both loops only move the cursor forward, the word loop by at least one character when
  it starts on a character of a word, and never beyond the end of the input; so
  \<^verbatim>\<open>substr\<close> is always called with a start inside the string.
\<close>

lemma word_end_ge: "pos \<le> word_end inp pos"
proof (induction inp pos rule: word_end.induct)
  case (1 inp pos)
  show ?case
  proof (cases "pos < length inp \<and> isAlphaNumeric (inp ! pos)")
    case True
    with 1 have "pos + 1 \<le> word_end inp (pos + 1)" by simp
    moreover from True have "word_end inp pos = word_end inp (pos + 1)"
      by (subst word_end.simps) simp
    ultimately show ?thesis by simp
  next
    case False
    then have "word_end inp pos = pos" by (subst word_end.simps) auto
    then show ?thesis by simp
  qed
qed

lemma word_end_gt:
  assumes "pos < length inp" and "isAlphaNumeric (inp ! pos)"
  shows "pos < word_end inp pos"
proof -
  from assms have "word_end inp pos = word_end inp (pos + 1)"
    by (subst word_end.simps) simp
  moreover have "pos + 1 \<le> word_end inp (pos + 1)" by (rule word_end_ge)
  ultimately show ?thesis by simp
qed

lemma word_end_le: "pos \<le> length inp \<Longrightarrow> word_end inp pos \<le> length inp"
proof (induction inp pos rule: word_end.induct)
  case (1 inp pos)
  show ?case
  proof (cases "pos < length inp \<and> isAlphaNumeric (inp ! pos)")
    case True
    with 1 have "word_end inp (pos + 1) \<le> length inp" by simp
    moreover from True have "word_end inp pos = word_end inp (pos + 1)"
      by (subst word_end.simps) simp
    ultimately show ?thesis by simp
  next
    case False
    then have "word_end inp pos = pos" by (subst word_end.simps) auto
    with 1 show ?thesis by simp
  qed
qed

lemma number_end_ge: "pos \<le> number_end inp pos"
proof (induction inp pos rule: number_end.induct)
  case (1 inp pos)
  show ?case
  proof (cases "pos < length inp \<and> (isDigit (inp ! pos) \<or> inp ! pos = CHR ''.'')")
    case True
    with 1 have "pos + 1 \<le> number_end inp (pos + 1)" by simp
    moreover from True have "number_end inp pos = number_end inp (pos + 1)"
      by (subst number_end.simps) simp
    ultimately show ?thesis by simp
  next
    case False
    then have "number_end inp pos = pos" by (subst number_end.simps) auto
    then show ?thesis by simp
  qed
qed

lemma getNextWord_Inr:
  assumes "position L \<le> length (input L)"
  shows "getNextWord L =
    Inr (take (word_end (input L) (position L) - position L) (drop (position L) (input L)),
         L\<lparr>position := word_end (input L) (position L)\<rparr>)"
  using assms by (simp add: getNextWord_def substr_def Let_def)

lemma getNextNumber_Inr:
  assumes "position L \<le> length (input L)"
  shows "getNextNumber L =
    Inr (take (number_end (input L) (position L) - position L) (drop (position L) (input L)),
         L\<lparr>position := number_end (input L) (position L)\<rparr>)"
  using assms by (simp add: getNextNumber_def substr_def Let_def)

subsection \<open>The keyword table\<close>

text \<open>
  The lookup on line 166 indexes the map only after \<^verbatim>\<open>find\<close> has found the key, so
  \<open>map_index\<close> never takes its inserting case.
\<close>

lemma scan_word_keywords:
  "scan_word (toks, L) = Inr (toks', L') \<Longrightarrow> keywords L' = keywords L"
  by (auto simp: scan_word_def getNextWord_def map_index_def Let_def
           split: sum.splits prod.splits if_splits option.splits)

lemma scan_number_keywords:
  "scan_number (toks, L) = Inr (toks', L') \<Longrightarrow> keywords L' = keywords L"
  by (auto simp: scan_number_def getNextNumber_def Let_def
           split: sum.splits prod.splits if_splits)

lemma tokenize_body_keywords:
  "tokenize_body (toks, L) = Inr (toks', L') \<Longrightarrow> keywords L' = keywords L"
  by (auto simp: tokenize_body_def Let_def dest: scan_word_keywords scan_number_keywords
           split: if_splits)



lemma keywords_new_Lexer_dom:
  "dom (keywords (new_Lexer inp)) =
     {''int'', ''float'', ''string'', ''if'', ''else'', ''while'', ''for'', ''switch'',
      ''case'', ''default'', ''break'', ''continue'', ''return'', ''void''}"
  by (simp add: new_Lexer_def initKeywords_def insert_commute)

lemma keywords_new_Lexer_apply:
  "keywords (new_Lexer inp) w =
     (if w \<in> {''int'', ''float'', ''string'', ''if'', ''else'', ''while'', ''for'', ''switch'',
      ''case'', ''default'', ''break'', ''continue'', ''return'', ''void''} then Some Keyword else None)"
  by (simp add: new_Lexer_def initKeywords_def)

lemma keywords_new_Lexer_ran: "ran (keywords (new_Lexer inp)) = {Keyword}"
  by (auto simp: ran_def keywords_new_Lexer_apply split: if_splits)

lemma tokenize_keywords:
  "tokenize L = Inr (toks, L') \<Longrightarrow> keywords L' = keywords L"
  by (auto simp: tokenize_def Let_def dest: tokenize_body_keywords split: if_splits)

subsection \<open>One call of tokenize\<close>

text \<open>
  What a call returns: the word branch appends one token that starts with the character
  under the cursor and is classified by the table; the digit branch cannot be reached,
  since every digit satisfies \<open>isAlpha\<close>, which is tested first; the other branches
  append a token of one character or, for whitespace, nothing.
\<close>

lemma isDigit_isAlpha: "isDigit c \<Longrightarrow> isAlpha c"
  by (simp add: isDigit_def isAlpha_def)

lemma scan_word_result:
  assumes "position L \<le> length (input L)"
  shows "scan_word (toks, L) =
    Inr (toks @ [\<lparr>type = (case keywords L (take (word_end (input L) (position L) - position L)
                                   (drop (position L) (input L))) of
                          None \<Rightarrow> Identifier | Some k \<Rightarrow> k),
                   value = take (word_end (input L) (position L) - position L)
                             (drop (position L) (input L))\<rparr>],
         L\<lparr>position := word_end (input L) (position L)\<rparr>)"
  using assms
  by (auto simp: scan_word_def getNextWord_Inr map_index_def split: option.splits)

lemma scan_word_tokens:
  assumes "position L < length (input L)" and "isAlpha (input L ! position L)"
    and "scan_word (toks, L) = Inr (toks', L')"
  shows "\<exists>w. w \<noteq> [] \<and> hd w = input L ! position L \<and>
     toks' = toks @ [\<lparr>type = (case keywords L w of None \<Rightarrow> Identifier | Some k \<Rightarrow> k), value = w\<rparr>]"
proof -
  let ?e = "word_end (input L) (position L)"
  let ?w = "take (?e - position L) (drop (position L) (input L))"
  from assms(2) have "isAlphaNumeric (input L ! position L)" by (simp add: isAlphaNumeric_def)
  with assms(1) have gt: "position L < ?e" by (rule word_end_gt)
  with assms(1) have ne: "?w \<noteq> []" by simp
  from gt assms(1) have hd: "hd ?w = input L ! position L"
    by (simp add: hd_drop_conv_nth)
  from assms(1) have "getNextWord L = Inr (?w, L\<lparr>position := ?e\<rparr>)"
    by (simp add: getNextWord_Inr)
  with assms(3) have "toks' = toks @ [\<lparr>type = (case keywords L ?w of None \<Rightarrow> Identifier | Some k \<Rightarrow> k), value = ?w\<rparr>]"
    by (auto simp: scan_word_def map_index_def split: if_splits option.splits)
  with ne hd show ?thesis by blast
qed

lemma scan_number_tokens:
  assumes "scan_number (toks, L) = Inr (toks', L')"
  shows "toks' = toks \<or> (\<exists>w. CHR ''.'' \<in> set w \<and> toks' = toks @ [\<lparr>type = Float, value = w\<rparr>])"
  using assms
  by (auto simp: scan_number_def Let_def split: sum.splits prod.splits if_splits)


lemma tokenize_body_cases:
  assumes "position L < length (input L)"
    and "tokenize_body (toks, L) = Inr (toks', L')"
  shows "toks' = toks \<or>
    (\<exists>t. toks' = toks @ [t] \<and> value t \<noteq> [] \<and>
      (if isAlpha (hd (value t))
       then type t = (case keywords L (value t) of None \<Rightarrow> Identifier | Some k \<Rightarrow> k)
       else length (value t) = 1 \<and> (type t = Operator \<or> type t = Delimiter \<or> type t = Unknown)))"
proof -
  let ?c = "input L ! position L"
  show ?thesis
  proof (cases "isWhitespace ?c")
    case True
    with assms(2) show ?thesis by (simp add: tokenize_body_def Let_def)
  next
    case ws: False
    show ?thesis
    proof (cases "isAlpha ?c")
      case True
      with ws assms(2) have "scan_word (toks, L) = Inr (toks', L')"
        by (simp add: tokenize_body_def Let_def)
      from scan_word_tokens [OF assms(1) True this] obtain w where
        w: "w \<noteq> []" "hd w = ?c"
           "toks' = toks @ [\<lparr>type = (case keywords L w of None \<Rightarrow> Identifier | Some k \<Rightarrow> k), value = w\<rparr>]"
        by blast
      with True show ?thesis by simp
    next
      case False
      then have "\<not> isDigit ?c" using isDigit_isAlpha by blast
      with ws False assms(2) show ?thesis
        by (auto simp: tokenize_body_def Let_def split: if_splits)
    qed
  qed
qed

lemma tokenize_cases:
  assumes "tokenize L = Inr (toks, L')" and "t \<in> set toks"
  shows "value t \<noteq> [] \<and>
      (if isAlpha (hd (value t))
       then type t = (case keywords L (value t) of None \<Rightarrow> Identifier | Some k \<Rightarrow> k)
       else length (value t) = 1 \<and> (type t = Operator \<or> type t = Delimiter \<or> type t = Unknown))"
proof -
  from assms(1) have p: "position L < length (input L)"
    and b: "tokenize_body ([], L) = Inr (toks, L')"
    by (auto simp: tokenize_def Let_def split: if_splits)
  from tokenize_body_cases [OF p b] assms(2) show ?thesis by auto
qed

lemma tokenize_MissingReturn:
  "length (input L) \<le> position L \<Longrightarrow> tokenize L = Inl MissingReturn"
  by (simp add: tokenize_def)

lemma tokenize_at_most_one_token:
  assumes "tokenize L = Inr (toks, L')"
  shows "length toks \<le> 1"
proof -
  from assms have p: "position L < length (input L)"
    and b: "tokenize_body ([], L) = Inr (toks, L')"
    by (auto simp: tokenize_def Let_def split: if_splits)
  from tokenize_body_cases [OF p b] show ?thesis by auto
qed

lemma tokenize_advances:
  assumes "position L < length (input L)"
  shows "\<exists>toks L'. tokenize L = Inr (toks, L') \<and> position L < position L'"
proof -
  let ?c = "input L ! position L"
  have t: "tokenize L = tokenize_body ([], L)"
    using assms by (simp add: tokenize_def)
  show ?thesis
  proof (cases "isWhitespace ?c")
    case True
    then show ?thesis by (simp add: t tokenize_body_def Let_def)
  next
    case ws: False
    show ?thesis
    proof (cases "isAlpha ?c")
      case True
      then have "isAlphaNumeric ?c" by (simp add: isAlphaNumeric_def)
      with assms have gt: "position L < word_end (input L) (position L)"
        by (rule word_end_gt)
      from assms have "position L \<le> length (input L)" by simp
      then have "\<exists>toks. scan_word ([], L) =
          Inr (toks, L\<lparr>position := word_end (input L) (position L)\<rparr>)"
        by (simp add: scan_word_result)
      with ws True gt show ?thesis
        by (auto simp: t tokenize_body_def Let_def)
    next
      case False
      then have "\<not> isDigit ?c" using isDigit_isAlpha by blast
      with ws False show ?thesis by (simp add: t tokenize_body_def Let_def)
    qed
  qed
qed

lemma tokenize_whitespace:
  assumes "position L < length (input L)" and "isWhitespace (input L ! position L)"
  shows "tokenize L = Inr ([], L\<lparr>position := position L + 1\<rparr>)"
  using assms by (simp add: tokenize_def tokenize_body_def Let_def)

text \<open>
  The defining equations used to evaluate a call on a concrete input.
\<close>

lemmas lexer_eval =
  tokenize_def tokenize_body_def scan_word_def scan_number_def getNextWord_def
  getNextNumber_def substr_def new_Lexer_def initKeywords_def map_index_def
  isWhitespace_def isAlpha_def isDigit_def isAlphaNumeric_def isOperatorChar_def
  isDelimiterChar_def char_int_def multichar_def Let_def word_end.simps number_end.simps

section \<open>The claims\<close>

text \<open>
  Each claim is settled on a lexer built by the constructor, or on any lexer whose
  keyword table is the constructed one. A call of \<^verbatim>\<open>tokenize\<close> that starts with the
  cursor inside the input runs the loop body once and returns at line 201; a call that
  starts with the cursor at the end of the input, as on the empty input, returns nothing.
\<close>

subsection \<open>C1: termination with a complete token sequence\<close>

text \<open>
  Claim C1: for every input \<^verbatim>\<open>tokenize\<close> terminates and returns a complete token
  sequence, every iteration of the scanning loop advancing the cursor. Every call with
  the cursor inside the input does return and does advance the cursor
  (\<open>tokenize_advances\<close>), but the sequence is not complete: on the input
  \<^verbatim>\<open>a+b\<close> the call returns the single token Identifier \<^verbatim>\<open>a\<close> with the cursor at 1 of
  3; the operator and the second identifier are never scanned.
\<close>

theorem C1_tokenize_returns_after_first_token:
  "tokenize (new_Lexer ''a+b'') =
     Inr ([\<lparr>type = Identifier, value = ''a''\<rparr>], (new_Lexer ''a+b'')\<lparr>position := 1\<rparr>)"
  by (simp add: lexer_eval)

subsection \<open>C2: numeric runs\<close>

text \<open>
  Claim C2: a consumed run of digits and dots yields exactly one token with that text,
  Float when the run contains a dot and Integer otherwise. On the input \<^verbatim>\<open>42\<close> the
  call yields Identifier \<^verbatim>\<open>42\<close>: the digit satisfies \<open>isAlpha\<close>, so the word
  scanner takes the run. The digit branch itself, run on the same lexer, appends no
  token for this dot-free run and leaves the cursor at 3, one beyond the end of the
  input: the \<^verbatim>\<open>push_back\<close> of line 174 is inside the \<^verbatim>\<open>if\<close> of line 171.
\<close>

theorem C2_digit_run_not_scanned_as_number:
  "tokenize (new_Lexer ''42'') =
     Inr ([\<lparr>type = Identifier, value = ''42''\<rparr>], (new_Lexer ''42'')\<lparr>position := 2\<rparr>) \<and>
   scan_number ([], new_Lexer ''42'') = Inr ([], (new_Lexer ''42'')\<lparr>position := 3\<rparr>)"
  by (simp add: lexer_eval)

subsection \<open>C3: the input 3.14 + x1\<close>

text \<open>
  Claim C3: on \<^verbatim>\<open>3.14 + x1\<close> the result is Float \<^verbatim>\<open>3.14\<close>, Operator \<^verbatim>\<open>+\<close>,
  Identifier \<^verbatim>\<open>x1\<close>. The call returns the single token Identifier \<^verbatim>\<open>3\<close> with the
  cursor at 1: the word scanner takes the digit and stops at the dot, and line 201
  returns.
\<close>

theorem C3_scenario_3_result:
  "tokenize (new_Lexer ''3.14 + x1'') =
     Inr ([\<lparr>type = Identifier, value = ''3''\<rparr>], (new_Lexer ''3.14 + x1'')\<lparr>position := 1\<rparr>)"
  by (simp add: lexer_eval)

subsection \<open>C4: the input int main() { return 0; }\<close>

text \<open>
  Claim C4: on \<^verbatim>\<open>int main() { return 0; }\<close> the result is the nine tokens Keyword
  \<^verbatim>\<open>int\<close>, Identifier \<^verbatim>\<open>main\<close>, Delimiter \<^verbatim>\<open>(\<close>, Delimiter \<^verbatim>\<open>)\<close>, Unknown
  \<^verbatim>\<open>{\<close>, Keyword \<^verbatim>\<open>return\<close>, Integer \<^verbatim>\<open>0\<close>, Unknown \<^verbatim>\<open>;\<close>, Unknown \<^verbatim>\<open>}\<close>.
  The call returns the single token Keyword \<^verbatim>\<open>int\<close> with the cursor at 3. A call with
  the cursor on the digit at offset 20 returns Identifier \<^verbatim>\<open>0\<close>, not Integer
  \<^verbatim>\<open>0\<close>.
\<close>

theorem C4_scenario_1_result:
  "tokenize (new_Lexer ''int main() { return 0; }'') =
     Inr ([\<lparr>type = Keyword, value = ''int''\<rparr>],
          (new_Lexer ''int main() { return 0; }'')\<lparr>position := 3\<rparr>) \<and>
   tokenize ((new_Lexer ''int main() { return 0; }'')\<lparr>position := 20\<rparr>) =
     Inr ([\<lparr>type = Identifier, value = ''0''\<rparr>],
          (new_Lexer ''int main() { return 0; }'')\<lparr>position := 21\<rparr>)"
  by (simp add: lexer_eval)

subsection \<open>C5: keywords and identifiers\<close>

text \<open>
  Claim C5: an emitted word whose text is one of the fourteen spellings of the keyword
  table has type Keyword, and every other word that starts with a letter has type
  Identifier. It holds of every token a call returns, for any lexer that holds the
  constructed table, whatever its cursor. The second part is stated for every token whose
  first character satisfies \<open>isAlpha\<close>, that is a letter or a digit, which includes
  the words that start with a letter.
\<close>

theorem C5_keyword_precedence:
  assumes "keywords L = keywords (new_Lexer inp)"
    and "tokenize L = Inr (toks, L')" and "t \<in> set toks"
  shows "(value t \<in> {''int'', ''float'', ''string'', ''if'', ''else'', ''while'', ''for'',
             ''switch'', ''case'', ''default'', ''break'', ''continue'', ''return'', ''void''}
          \<longrightarrow> type t = Keyword) \<and>
         (value t \<notin> {''int'', ''float'', ''string'', ''if'', ''else'', ''while'', ''for'',
             ''switch'', ''case'', ''default'', ''break'', ''continue'', ''return'', ''void''}
          \<and> isAlpha (hd (value t)) \<longrightarrow> type t = Identifier)"
proof -
  let ?K = "{''int'', ''float'', ''string'', ''if'', ''else'', ''while'', ''for'',
             ''switch'', ''case'', ''default'', ''break'', ''continue'', ''return'', ''void''}"
  note c = tokenize_cases [OF assms(2,3)]
  have kw: "keywords L (value t) = (if value t \<in> ?K then Some Keyword else None)"
    by (simp only: assms(1) keywords_new_Lexer_apply)
  have a: "type t = Keyword" if "value t \<in> ?K"
  proof (cases "isAlpha (hd (value t))")
    case True
    with c have "type t = (case keywords L (value t) of None \<Rightarrow> Identifier | Some k \<Rightarrow> k)"
      by simp
    with that show ?thesis by (simp only: kw if_True option.case)
  next
    case False
    with c have "length (value t) = 1" by simp
    with that show ?thesis by auto
  qed
  have b: "type t = Identifier" if "value t \<notin> ?K" and "isAlpha (hd (value t))"
  proof -
    from c that(2) have "type t = (case keywords L (value t) of None \<Rightarrow> Identifier | Some k \<Rightarrow> k)"
      by simp
    with that(1) show ?thesis by (simp only: kw if_False option.case)
  qed
  from a b show ?thesis by blast
qed

text \<open>
  The theorem at a keyword and at an identifier.
\<close>

theorem C5_keyword_precedence_witness:
  "tokenize (new_Lexer ''while x1'') =
     Inr ([\<lparr>type = Keyword, value = ''while''\<rparr>], (new_Lexer ''while x1'')\<lparr>position := 5\<rparr>) \<and>
   type \<lparr>type = Keyword, value = ''while''\<rparr> = Keyword \<and>
   tokenize (new_Lexer ''x1 while'') =
     Inr ([\<lparr>type = Identifier, value = ''x1''\<rparr>], (new_Lexer ''x1 while'')\<lparr>position := 2\<rparr>) \<and>
   isAlpha (hd (value \<lparr>type = Identifier, value = ''x1''\<rparr>)) \<and>
   type \<lparr>type = Identifier, value = ''x1''\<rparr> = Identifier"
proof -
  have k: "tokenize (new_Lexer ''while x1'') =
     Inr ([\<lparr>type = Keyword, value = ''while''\<rparr>], (new_Lexer ''while x1'')\<lparr>position := 5\<rparr>)"
    by (simp add: lexer_eval)
  have i: "tokenize (new_Lexer ''x1 while'') =
     Inr ([\<lparr>type = Identifier, value = ''x1''\<rparr>], (new_Lexer ''x1 while'')\<lparr>position := 2\<rparr>)"
    by (simp add: lexer_eval)
  have a: "isAlpha (hd (value \<lparr>type = Identifier, value = ''x1''\<rparr>))"
    by (simp add: isAlpha_def char_int_def)
  from C5_keyword_precedence [OF refl k, of "\<lparr>type = Keyword, value = ''while''\<rparr>"]
       C5_keyword_precedence [OF refl i, of "\<lparr>type = Identifier, value = ''x1''\<rparr>"]
       k i a
  show ?thesis by simp
qed

subsection \<open>C6: unknown characters\<close>

text \<open>
  Claim C6: every input character that is no letter, digit, whitespace, operator or
  delimiter yields one Unknown token of that character, the cursor advancing by one, and
  no input makes the scan fail. On the input \<^verbatim>\<open>@#\<close> the call returns Unknown \<^verbatim>\<open>@\<close>
  with the cursor at 1, and \<^verbatim>\<open>#\<close> yields no token. On the empty input the loop is not
  entered and the call ends without a returned value.
\<close>

theorem C6_later_characters_not_scanned:
  "tokenize (new_Lexer ''@#'') =
     Inr ([\<lparr>type = Unknown, value = ''@''\<rparr>], (new_Lexer ''@#'')\<lparr>position := 1\<rparr>) \<and>
   tokenize (new_Lexer '''') = Inl MissingReturn"
  by (simp add: lexer_eval)

subsection \<open>C7: reconstruction of the input\<close>

text \<open>
  Claim C7: the texts of the returned tokens, with the skipped whitespace put back,
  give the input. On the input \<^verbatim>\<open>a b\<close> the call returns Identifier \<^verbatim>\<open>a\<close> alone, the
  cursor at 1: the character \<^verbatim>\<open>b\<close> is in no token.
\<close>

theorem C7_input_not_reconstructed:
  "tokenize (new_Lexer ''a b'') =
     Inr ([\<lparr>type = Identifier, value = ''a''\<rparr>], (new_Lexer ''a b'')\<lparr>position := 1\<rparr>)"
  by (simp add: lexer_eval)

subsection \<open>C8: empty and whitespace-only input\<close>

text \<open>
  Claim C8: on the empty input and on an input of whitespace only the result is the
  empty sequence. On a non-empty input that starts with whitespace the call does return
  the empty sequence (\<open>tokenize_whitespace\<close>). On the empty input the loop
  condition fails at once and the function ends without a \<^verbatim>\<open>return\<close>: there is no
  result.
\<close>

theorem C8_empty_input_no_result:
  "tokenize (new_Lexer '''') = Inl MissingReturn"
  by (simp add: lexer_eval)

subsection \<open>C9: the keyword table is not changed\<close>

text \<open>
  Claim C9: after \<^verbatim>\<open>tokenize\<close> returns, the keyword table holds exactly the fourteen
  entries it held after construction. For any lexer that holds the constructed table, the
  table after a call that returns is the same map; its keys are the fourteen spellings
  and its only value is Keyword.
\<close>

theorem C9_keyword_table_unchanged:
  assumes "keywords L = keywords (new_Lexer inp)" and "tokenize L = Inr (toks, L')"
  shows "keywords L' = keywords (new_Lexer inp) \<and>
         dom (keywords L') =
           {''int'', ''float'', ''string'', ''if'', ''else'', ''while'', ''for'', ''switch'',
            ''case'', ''default'', ''break'', ''continue'', ''return'', ''void''} \<and>
         ran (keywords L') = {Keyword} \<and>
         card (dom (keywords L')) = 14"
proof -
  let ?K = "{''int'', ''float'', ''string'', ''if'', ''else'', ''while'', ''for'', ''switch'',
      ''case'', ''default'', ''break'', ''continue'', ''return'', ''void''}"
  from assms have eq: "keywords L' = keywords (new_Lexer inp)"
    using tokenize_keywords by metis
  have d: "dom (keywords L') = ?K"
    by (simp only: eq keywords_new_Lexer_dom)
  have r: "ran (keywords L') = {Keyword}"
    by (simp only: eq keywords_new_Lexer_ran)
  have "card ?K = 14" by simp
  then have c: "card (dom (keywords L')) = 14" by (simp only: d)
  from eq d r c show ?thesis by (intro conjI)
qed

text \<open>
  The theorem on a word that is not in the table, the case in which an unguarded
  lookup would have inserted an entry.
\<close>

theorem C9_keyword_table_unchanged_witness:
  "tokenize (new_Lexer ''foo bar'') =
     Inr ([\<lparr>type = Identifier, value = ''foo''\<rparr>], (new_Lexer ''foo bar'')\<lparr>position := 3\<rparr>) \<and>
   keywords ((new_Lexer ''foo bar'')\<lparr>position := 3\<rparr>) = keywords (new_Lexer ''foo bar'') \<and>
   card (dom (keywords ((new_Lexer ''foo bar'')\<lparr>position := 3\<rparr>))) = 14"
proof -
  have h: "tokenize (new_Lexer ''foo bar'') =
     Inr ([\<lparr>type = Identifier, value = ''foo''\<rparr>], (new_Lexer ''foo bar'')\<lparr>position := 3\<rparr>)"
    by (simp add: lexer_eval)
  from C9_keyword_table_unchanged [OF refl h] h show ?thesis by simp
qed

subsection \<open>C10: no token is empty\<close>

text \<open>
  Claim C10: every token of the returned sequence has a text of length at least one.
\<close>

theorem C10_token_text_nonempty:
  assumes "tokenize L = Inr (toks, L')" and "t \<in> set toks"
  shows "1 \<le> length (value t)"
proof -
  from tokenize_cases [OF assms] have "value t \<noteq> []" by simp
  then show ?thesis by (cases "value t") simp_all
qed

text \<open>
  The theorem on an input that starts with a delimiter.
\<close>

theorem C10_token_text_nonempty_witness:
  "tokenize (new_Lexer ''(x)'') =
     Inr ([\<lparr>type = Delimiter, value = ''(''\<rparr>], (new_Lexer ''(x)'')\<lparr>position := 1\<rparr>) \<and>
   1 \<le> length (value \<lparr>type = Delimiter, value = ''(''\<rparr>)"
proof -
  have h: "tokenize (new_Lexer ''(x)'') =
     Inr ([\<lparr>type = Delimiter, value = ''(''\<rparr>], (new_Lexer ''(x)'')\<lparr>position := 1\<rparr>)"
    by (simp add: lexer_eval)
  from C10_token_text_nonempty [OF h, of "\<lparr>type = Delimiter, value = ''(''\<rparr>"] h
  show ?thesis by simp
qed

end
